theory Spec2Isabelle
  imports Complex_Main
begin

section \<open>Data model\<close>

text \<open>
  A Python \<^verbatim>\<open>str\<close> is the sequence of its Unicode code points. \<open>py\<close> gives the
  \<^verbatim>\<open>str\<close> of a literal of ASCII characters, and \<open>sep\<close> is the slash that separates
  the components of a path.
\<close>

type_synonym pystr = "nat list"

definition py :: "string \<Rightarrow> pystr" where
  "py s = map of_char s"

definition sep :: nat where
  "sep = 47"

text \<open>
  A WordRecord is the dictionary built in \<^verbatim>\<open>preprocess_documents\<close> and read back by
  \<^verbatim>\<open>search_word\<close>. Python floats are modelled as reals: the code only copies and
  compares coordinates, and multiplies them by an image size when drawing.
\<close>

record WordRecord =
  document :: pystr
  page :: int
  word :: pystr
  bounding_box :: "real list"

text \<open>The exceptions that the two scripts can meet.\<close>

datatype exn =
    FileNotFoundError
  | JSONDecodeError
  | EOFError
  | IndexError
  | UnicodeDecodeError
  | ValueError pystr
  | OtherException string

section \<open>String helpers of the Python library\<close>

text \<open>The whitespace that \<^verbatim>\<open>str.strip()\<close> removes, which is that of
  \<^verbatim>\<open>str.isspace\<close>: U+0009 to U+000D, U+001C to U+0020, U+0085, U+00A0, U+1680, U+2000
  to U+200A, U+2028, U+2029, U+202F, U+205F and U+3000.\<close>

definition isspace :: "nat \<Rightarrow> bool" where
  "isspace c =
     ((9 \<le> c \<and> c \<le> 13) \<or> (28 \<le> c \<and> c \<le> 32) \<or> c = 133 \<or> c = 160 \<or> c = 5760
      \<or> (8192 \<le> c \<and> c \<le> 8202) \<or> c = 8232 \<or> c = 8233 \<or> c = 8239 \<or> c = 8287
      \<or> c = 12288)"

text \<open>\<^verbatim>\<open>str.strip()\<close>: leading and trailing whitespace removed.\<close>

definition strip :: "pystr \<Rightarrow> pystr" where
  "strip s = rev (dropWhile isspace (rev (dropWhile isspace s)))"

section \<open>search.py\<close>

text \<open>
  The world of the query engine: which directories exist, what opening and parsing the
  index file gives (the records, or the exception raised: \<^verbatim>\<open>FileNotFoundError\<close> for a
  missing file, \<^verbatim>\<open>UnicodeDecodeError\<close> for bytes that are no text in the encoding of
  the locale, \<^verbatim>\<open>JSONDecodeError\<close> for text that is no JSON), and whether the output
  file can be written (\<open>None\<close>), or which message the exception carries.
\<close>

record search_env =
  isdir :: "pystr \<Rightarrow> bool"
  open_json :: "pystr \<Rightarrow> exn + WordRecord list"
  open_write :: "pystr \<Rightarrow> pystr option"

text \<open>What the engine prints, one constructor per \<^verbatim>\<open>print\<close> or prompt of the source.\<close>

datatype msg =
    Prompt string
  | FileNotFoundMsg pystr
  | NotValidJsonMsg pystr
  | DirNotExistMsg pystr
  | NoPathProvidedMsg
  | FoundMsg nat pystr
  | ResultsSavedMsg pystr
  | ErrorSavingMsg pystr pystr
  | NoMatchesMsg pystr
  | EmptyResultsSavedMsg pystr
  | ErrorSavingEmptyMsg pystr pystr

text \<open>The state threaded through a run: the lines still to be read from standard
  input, what was printed, and every file written (path and content), oldest first.\<close>

record sstate =
  stdin :: "pystr list"
  stdout :: "msg list"
  written :: "(pystr \<times> WordRecord list) list"

definition print :: "msg \<Rightarrow> sstate \<Rightarrow> sstate" where
  "print m s = s\<lparr>stdout := stdout s @ [m]\<rparr>"

text \<open>\<^verbatim>\<open>input(prompt)\<close>: shows the prompt and reads one line; end of input raises.\<close>

definition input :: "string \<Rightarrow> sstate \<Rightarrow> exn + (pystr \<times> sstate)" where
  "input prompt s =
     (case stdin s of
        [] \<Rightarrow> Inl EOFError
      | l # ls \<Rightarrow> Inr (l, (print (Prompt prompt) s)\<lparr>stdin := ls\<rparr>))"

text \<open>\<^verbatim>\<open>json.dump(content, f, indent=2)\<close> on a file opened for writing. The file
  is represented by the array of records it holds, not by its text; a write that fails
  is taken to leave no file behind.\<close>

definition json_dump :: "pystr \<Rightarrow> WordRecord list \<Rightarrow> sstate \<Rightarrow> sstate" where
  "json_dump path content s = s\<lparr>written := written s @ [(path, content)]\<rparr>"

text \<open>\<^verbatim>\<open>load_json_file\<close>: two exceptions are caught and reported, \<open>None\<close> is returned;
  any other exception propagates.\<close>

definition load_json_file ::
  "search_env \<Rightarrow> pystr \<Rightarrow> sstate \<Rightarrow> exn + (WordRecord list option \<times> sstate)" where
  "load_json_file env json_path s =
     (case open_json env json_path of
        Inr data \<Rightarrow> Inr (Some data, s)
      | Inl FileNotFoundError \<Rightarrow> Inr (None, print (FileNotFoundMsg json_path) s)
      | Inl JSONDecodeError \<Rightarrow> Inr (None, print (NotValidJsonMsg json_path) s)
      | Inl e \<Rightarrow> Inl e)"

text \<open>The loop \<^verbatim>\<open>while not os.path.isdir(documents_dir)\<close>: \<open>Some d\<close> is the directory
  accepted, \<open>None\<close> the early return after an empty answer.\<close>

function validate_dir ::
  "search_env \<Rightarrow> pystr \<Rightarrow> sstate \<Rightarrow> exn + (pystr option \<times> sstate)" where
  "validate_dir env documents_dir s =
     (if isdir env documents_dir then Inr (Some documents_dir, s)
      else
        (case input ''Please enter a valid documents directory path: ''
                (print (DirNotExistMsg documents_dir) s) of
           Inl e \<Rightarrow> Inl e
         | Inr (l, s') \<Rightarrow>
             (if strip l = [] then Inr (None, print NoPathProvidedMsg s')
              else validate_dir env (strip l) s')))"
  by pat_completeness auto
termination
  by (relation "measure (\<lambda>(env, d, s). length (stdin s))")
     (auto simp: input_def print_def split: list.splits)

declare validate_dir.simps [simp del]

text \<open>The comprehension \<^verbatim>\<open>[entry for entry in data if entry["word"] == search_word]\<close>.\<close>

fun find_matches :: "WordRecord list \<Rightarrow> pystr \<Rightarrow> WordRecord list" where
  "find_matches [] q = []"
| "find_matches (entry # data) q =
     (if word entry = q then entry # find_matches data q else find_matches data q)"

text \<open>The two branches that save the result; a failure to write is caught and printed.\<close>

definition save_results :: "search_env \<Rightarrow> pystr \<Rightarrow> pystr \<Rightarrow> WordRecord list \<Rightarrow> sstate \<Rightarrow> sstate" where
  "save_results env output_json q matches s =
     (if matches \<noteq> [] then
        (case open_write env output_json of
           None \<Rightarrow> print (ResultsSavedMsg output_json)
                     (print (FoundMsg (length matches) q) (json_dump output_json matches s))
         | Some err \<Rightarrow> print (ErrorSavingMsg output_json err) s)
      else
        (case open_write env output_json of
           None \<Rightarrow> print (EmptyResultsSavedMsg output_json)
                     (json_dump output_json [] (print (NoMatchesMsg q) s))
         | Some err \<Rightarrow> print (ErrorSavingEmptyMsg output_json err) (print (NoMatchesMsg q) s)))"

definition search_word ::
  "search_env \<Rightarrow> pystr \<Rightarrow> pystr \<Rightarrow> pystr \<Rightarrow> sstate \<Rightarrow> exn + sstate" where
  "search_word env documents_dir json_path output_json s =
     (case validate_dir env documents_dir s of
        Inl e \<Rightarrow> Inl e
      | Inr (None, s1) \<Rightarrow> Inr s1
      | Inr (Some d, s1) \<Rightarrow>
          (case load_json_file env json_path s1 of
             Inl e \<Rightarrow> Inl e
           | Inr (None, s2) \<Rightarrow> Inr s2
           | Inr (Some data, s2) \<Rightarrow>
               (case input ''Enter the word to search: '' s2 of
                  Inl e \<Rightarrow> Inl e
                | Inr (l, s3) \<Rightarrow>
                    Inr (save_results env output_json (strip l)
                           (find_matches data (strip l)) s3))))"

text \<open>\<^verbatim>\<open>input(...).strip() or default\<close>.\<close>

definition input_or :: "string \<Rightarrow> pystr \<Rightarrow> sstate \<Rightarrow> exn + (pystr \<times> sstate)" where
  "input_or prompt dflt s =
     (case input prompt s of
        Inl e \<Rightarrow> Inl e
      | Inr (l, s') \<Rightarrow> Inr (if strip l = [] then dflt else strip l, s'))"

definition search_main :: "search_env \<Rightarrow> sstate \<Rightarrow> exn + sstate" where
  "search_main env s =
     (case input_or ''Enter the do cuments directory path: ''
             (py ''/home/litzchill/Boon_sai/doc_search/DATA/data'') s of
        Inl e \<Rightarrow> Inl e
      | Inr (documents_dir, s1) \<Rightarrow>
          (case input_or ''Enter the JSON file path: ''
                  (py ''/home/litzchill/Boon_sai/doc_search/word_index.json'') s1 of
             Inl e \<Rightarrow> Inl e
           | Inr (json_path, s2) \<Rightarrow>
               (case input_or ''Enter the output JSON file path: ''
                       (py ''/home/litzchill/Boon_sai/doc_search/search_results.json'') s2 of
                  Inl e \<Rightarrow> Inl e
                | Inr (output_json, s3) \<Rightarrow>
                    search_word env documents_dir json_path output_json s3)))"

section \<open>Path and string functions used by preprocess.py\<close>

text \<open>\<^verbatim>\<open>os.path.basename\<close>: what follows the last slash.\<close>

definition basename :: "pystr \<Rightarrow> pystr" where
  "basename p = rev (takeWhile (\<lambda>c. c \<noteq> sep) (rev p))"

text \<open>\<^verbatim>\<open>os.path.join\<close> of two components.\<close>

definition join :: "pystr \<Rightarrow> pystr \<Rightarrow> pystr" where
  "join a b =
     (if b \<noteq> [] \<and> hd b = sep then b
      else if a = [] \<or> last a = sep then a @ b
      else a @ [sep] @ b)"

text \<open>\<^verbatim>\<open>s.replace(old, new)\<close>: every occurrence, left to right, without overlap; an
  empty \<open>old\<close> matches before every character and at the end.\<close>

function replace :: "pystr \<Rightarrow> pystr \<Rightarrow> pystr \<Rightarrow> pystr" where
  "replace old new s =
     (if old = [] then new @ concat (map (\<lambda>c. c # new) s)
      else if s = [] then []
      else if take (length old) s = old then new @ replace old new (drop (length old) s)
      else hd s # replace old new (tl s))"
  by pat_completeness auto
termination
  by (relation "measure (\<lambda>(old, new, s). length s)") auto

declare replace.simps [simp del]

text \<open>\<^verbatim>\<open>str.lower\<close>, as far as the tests below need it: the ASCII capitals are
  lowered. It is only used to test for the suffixes \<open>.pdf\<close>, \<open>.jpg\<close>, \<open>.jpeg\<close> and
  \<open>.png\<close>, and no character beyond ASCII is lowered to a character of these.\<close>

definition lower_char :: "nat \<Rightarrow> nat" where
  "lower_char c = (if 65 \<le> c \<and> c \<le> 90 then c + 32 else c)"

definition lower :: "pystr \<Rightarrow> pystr" where
  "lower s = map lower_char s"

definition endswith :: "pystr \<Rightarrow> pystr \<Rightarrow> bool" where
  "endswith s suf = (length suf \<le> length s \<and> drop (length s - length suf) s = suf)"

text \<open>\<^verbatim>\<open>str(n)\<close> of a natural number, as the f-strings that name page images need it.\<close>

function str_nat :: "nat \<Rightarrow> pystr" where
  "str_nat n =
     (if n < 10 then [48 + n]
      else str_nat (n div 10) @ [48 + n mod 10])"
  by pat_completeness auto
termination
  by (relation "measure id") auto

declare str_nat.simps [simp del]

text \<open>Indexing a tuple or list: out of range raises.\<close>

definition py_index :: "'a list \<Rightarrow> nat \<Rightarrow> exn + 'a" where
  "py_index xs i = (if i < length xs then Inr (xs ! i) else Inl IndexError)"

section \<open>preprocess.py\<close>

subsection \<open>The OCR result and the world of the pipeline\<close>

text \<open>The structure returned by the OCR model: pages, blocks, lines, words; a word has
  its text (\<^verbatim>\<open>word.value\<close>) and a geometry, a sequence of corner points.\<close>

record ocr_word =
  word_value :: pystr
  geometry :: "(real \<times> real) list"

record ocr_line =
  words :: "ocr_word list"

record ocr_block =
  lines :: "ocr_line list"

record ocr_page =
  blocks :: "ocr_block list"

record ocr_result =
  pages :: "ocr_page list"

text \<open>The bytes captured from the converter's standard error, by what
  \<^verbatim>\<open>bytes.decode()\<close> makes of them: text, or no valid UTF-8.\<close>

datatype stderr_bytes = Utf8 pystr | NotUtf8

definition decode :: "stderr_bytes \<Rightarrow> exn + pystr" where
  "decode b = (case b of Utf8 t \<Rightarrow> Inr t | NotUtf8 \<Rightarrow> Inl UnicodeDecodeError)"

text \<open>What \<^verbatim>\<open>subprocess.run(..., check=True)\<close> does: it returns, raises
  \<^verbatim>\<open>CalledProcessError\<close> carrying the captured standard error, or raises something
  else (the converter is not installed, say).\<close>

datatype run_outcome = Completed | CalledProcessError stderr_bytes | RunException exn

type_synonym rectangle = "(real \<times> real) \<times> (real \<times> real)"

text \<open>The external calls, as the world answers them: the folder test, the temporary
  directory, the file enumeration, the converter, the document loaders and the OCR model
  (\<open>'d\<close> is the document handle), the page rasteriser writing its image, opening an
  image for drawing (its size), \<^verbatim>\<open>draw.rectangle\<close> on given corners (which the imaging
  library may refuse, for corners out of order say), saving an image, and opening the
  index file for writing.\<close>

record 'd pipeline_env =
  folder_isdir :: "pystr \<Rightarrow> bool"
  mkdtemp :: pystr
  glob :: "pystr \<Rightarrow> pystr list"
  soffice :: "pystr \<Rightarrow> pystr \<Rightarrow> run_outcome"
  from_pdf :: "pystr \<Rightarrow> exn + 'd"
  from_images :: "pystr \<Rightarrow> exn + 'd"
  model :: "'d \<Rightarrow> exn + ocr_result"
  convert_from_path :: "pystr \<Rightarrow> nat \<Rightarrow> pystr \<Rightarrow> exn option"
  image_open :: "pystr \<Rightarrow> exn + (nat \<times> nat)"
  draw_rectangle :: "rectangle \<Rightarrow> exn option"
  image_save :: "pystr \<Rightarrow> exn option"
  index_write :: "pystr \<Rightarrow> exn option"

text \<open>One constructor per \<^verbatim>\<open>logging\<close> call of the source, with the values it
  interpolates.\<close>

datatype log_entry =
    Info_Converted pystr pystr
  | Error_Converting pystr pystr
  | Error_ConvertingExn pystr exn
  | Info_ConvertedPage nat pystr pystr
  | Error_ConvertingPage nat pystr exn
  | Info_DrewBox pystr "real list" pystr
  | Info_SavedAnnotated pystr
  | Error_Drawing pystr exn
  | Info_Processing pystr
  | Info_OCRCompleted pystr nat
  | Error_Processing pystr exn
  | Info_SavedIndex pystr

fun is_error :: "log_entry \<Rightarrow> bool" where
  "is_error (Error_Converting f m) = True"
| "is_error (Error_ConvertingExn f e) = True"
| "is_error (Error_ConvertingPage n f e) = True"
| "is_error (Error_Drawing f e) = True"
| "is_error (Error_Processing f e) = True"
| "is_error other = False"

text \<open>The state of a run: the \<^verbatim>\<open>results\<close> list, the log, the annotated images saved
  (path and rectangles drawn) and the index files written, oldest first.\<close>

record pstate =
  results :: "WordRecord list"
  logged :: "log_entry list"
  annotated :: "(pystr \<times> rectangle list) list"
  index_files :: "(pystr \<times> WordRecord list) list"

definition logging :: "log_entry \<Rightarrow> pstate \<Rightarrow> pstate" where
  "logging l s = s\<lparr>logged := logged s @ [l]\<rparr>"

subsection \<open>preprocess_docx\<close>

text \<open>The loop over the DOCX files. A failed conversion is logged and the file is left
  out; the handler of \<^verbatim>\<open>CalledProcessError\<close> decodes the captured standard error, and an
  exception raised there is not caught by the sibling handler.\<close>

fun docx_loop ::
  "'d pipeline_env \<Rightarrow> pystr \<Rightarrow> pystr list \<Rightarrow> pystr list \<Rightarrow> pstate
     \<Rightarrow> exn + (pystr list \<times> pstate)" where
  "docx_loop env output_folder [] pdf_paths s = Inr (pdf_paths, s)"
| "docx_loop env output_folder (docx_file # rest) pdf_paths s =
     (let pdf_path = join output_folder (replace (py ''.docx'') (py ''.pdf'') (basename docx_file)) in
      case soffice env docx_file output_folder of
        Completed \<Rightarrow>
          docx_loop env output_folder rest (pdf_paths @ [pdf_path])
            (logging (Info_Converted docx_file pdf_path) s)
      | CalledProcessError err \<Rightarrow>
          (case decode err of
             Inl e \<Rightarrow> Inl e
           | Inr txt \<Rightarrow>
               docx_loop env output_folder rest pdf_paths
                 (logging (Error_Converting docx_file txt) s))
      | RunException e \<Rightarrow>
          docx_loop env output_folder rest pdf_paths
            (logging (Error_ConvertingExn docx_file e) s))"

definition preprocess_docx ::
  "'d pipeline_env \<Rightarrow> pystr \<Rightarrow> pystr \<Rightarrow> pstate \<Rightarrow> exn + (pystr list \<times> pstate)" where
  "preprocess_docx env input_folder output_folder s =
     docx_loop env output_folder (glob env (join input_folder (py ''*.docx''))) [] s"

subsection \<open>convert_page_to_image and draw_bounding_boxes\<close>

definition convert_page_to_image ::
  "'d pipeline_env \<Rightarrow> pystr \<Rightarrow> nat \<Rightarrow> pystr \<Rightarrow> pystr \<Rightarrow> pstate \<Rightarrow> pystr option \<times> pstate" where
  "convert_page_to_image env pdf_path page_num output_dir doc_name s =
     (let image_path = join output_dir (doc_name @ py ''_page_'' @ str_nat page_num @ py ''.jpg'') in
      case convert_from_path env pdf_path page_num image_path of
        None \<Rightarrow> (Some image_path, logging (Info_ConvertedPage page_num pdf_path image_path) s)
      | Some e \<Rightarrow> (None, logging (Error_ConvertingPage page_num pdf_path e) s))"

text \<open>The four products of the drawing loop, in the order the source evaluates them.\<close>

definition scale_box :: "real list \<Rightarrow> nat \<Rightarrow> nat \<Rightarrow> exn + rectangle" where
  "scale_box bbox img_width img_height =
     (case py_index bbox 0 of Inl e \<Rightarrow> Inl e | Inr b0 \<Rightarrow>
     (case py_index bbox 1 of Inl e \<Rightarrow> Inl e | Inr b1 \<Rightarrow>
     (case py_index bbox 2 of Inl e \<Rightarrow> Inl e | Inr b2 \<Rightarrow>
     (case py_index bbox 3 of Inl e \<Rightarrow> Inl e | Inr b3 \<Rightarrow>
        (let x_min = b0 * real img_width;
             y_min = b1 * real img_height;
             x_max = b2 * real img_width;
             y_max = b3 * real img_height
         in Inr ((x_min, y_min), (x_max, y_max)))))))"

text \<open>\<^verbatim>\<open>for word in words\<close>: the rectangles drawn so far and the log; an exception,
  of the indexing or of \<^verbatim>\<open>draw.rectangle\<close>, stops the loop.\<close>

fun draw_loop ::
  "'d pipeline_env \<Rightarrow> nat \<times> nat \<Rightarrow> pystr \<Rightarrow> WordRecord list \<Rightarrow> rectangle list \<Rightarrow> pstate
     \<Rightarrow> exn option \<times> rectangle list \<times> pstate" where
  "draw_loop env (img_width, img_height) image_path [] drawn s = (None, drawn, s)"
| "draw_loop env (img_width, img_height) image_path (w # ws) drawn s =
     (let bbox = bounding_box w in
      case scale_box bbox img_width img_height of
        Inl e \<Rightarrow> (Some e, drawn, s)
      | Inr r \<Rightarrow>
          (case draw_rectangle env r of
             Some e \<Rightarrow> (Some e, drawn, s)
           | None \<Rightarrow>
               draw_loop env (img_width, img_height) image_path ws (drawn @ [r])
                 (logging (Info_DrewBox (word w) bbox image_path) s)))"

definition draw_bounding_boxes ::
  "'d pipeline_env \<Rightarrow> pystr \<Rightarrow> WordRecord list \<Rightarrow> pystr \<Rightarrow> pystr \<Rightarrow> nat \<Rightarrow> pstate
     \<Rightarrow> pystr option \<times> pstate" where
  "draw_bounding_boxes env image_path ws output_dir doc_name page_num s =
     (case image_open env image_path of
        Inl e \<Rightarrow> (None, logging (Error_Drawing image_path e) s)
      | Inr img_size \<Rightarrow>
          (case draw_loop env img_size image_path ws [] s of
             (Some e, drawn, s1) \<Rightarrow> (None, logging (Error_Drawing image_path e) s1)
           | (None, drawn, s1) \<Rightarrow>
               (let output_path =
                      join output_dir
                        (py ''annotated_'' @ doc_name @ py ''_page_'' @ str_nat page_num @ py ''.jpg'')
                in case image_save env output_path of
                     Some e \<Rightarrow> (None, logging (Error_Drawing image_path e) s1)
                   | None \<Rightarrow>
                       (Some output_path,
                        logging (Info_SavedAnnotated output_path)
                          (s1\<lparr>annotated := annotated s1 @ [(output_path, drawn)]\<rparr>)))))"

subsection \<open>preprocess_documents\<close>

text \<open>The dictionary appended for one word: \<^verbatim>\<open>word.geometry[0]\<close> and
  \<^verbatim>\<open>word.geometry[1]\<close> are read, nothing else of the geometry.\<close>

definition word_record :: "pystr \<Rightarrow> nat \<Rightarrow> ocr_word \<Rightarrow> exn + WordRecord" where
  "word_record file_path page_idx w =
     (case py_index (geometry w) 0 of Inl e \<Rightarrow> Inl e | Inr p0 \<Rightarrow>
     (case py_index (geometry w) 1 of Inl e \<Rightarrow> Inl e | Inr p1 \<Rightarrow>
        Inr \<lparr>document = basename file_path,
             page = int page_idx + 1,
             word = word_value w,
             bounding_box = [fst p0, snd p0, fst p1, snd p1]\<rparr>))"

text \<open>The three nested loops that fill \<^verbatim>\<open>page_words\<close>.\<close>

fun words_loop :: "pystr \<Rightarrow> nat \<Rightarrow> ocr_word list \<Rightarrow> WordRecord list \<Rightarrow> exn + WordRecord list" where
  "words_loop file_path page_idx [] page_words = Inr page_words"
| "words_loop file_path page_idx (w # ws) page_words =
     (case word_record file_path page_idx w of
        Inl e \<Rightarrow> Inl e
      | Inr r \<Rightarrow> words_loop file_path page_idx ws (page_words @ [r]))"

fun lines_loop :: "pystr \<Rightarrow> nat \<Rightarrow> ocr_line list \<Rightarrow> WordRecord list \<Rightarrow> exn + WordRecord list" where
  "lines_loop file_path page_idx [] page_words = Inr page_words"
| "lines_loop file_path page_idx (l # ls) page_words =
     (case words_loop file_path page_idx (words l) page_words of
        Inl e \<Rightarrow> Inl e
      | Inr page_words' \<Rightarrow> lines_loop file_path page_idx ls page_words')"

fun blocks_loop :: "pystr \<Rightarrow> nat \<Rightarrow> ocr_block list \<Rightarrow> WordRecord list \<Rightarrow> exn + WordRecord list" where
  "blocks_loop file_path page_idx [] page_words = Inr page_words"
| "blocks_loop file_path page_idx (b # bs) page_words =
     (case lines_loop file_path page_idx (lines b) page_words of
        Inl e \<Rightarrow> Inl e
      | Inr page_words' \<Rightarrow> blocks_loop file_path page_idx bs page_words')"

text \<open>The end of the page loop's body: the page image is the file itself for an image
  input, the rasterised page otherwise; with an image the boxes are drawn. Both helpers
  catch their exceptions, so only the log and the annotated images change.\<close>

definition annotate_page ::
  "'d pipeline_env \<Rightarrow> pystr \<Rightarrow> pystr \<Rightarrow> pystr \<Rightarrow> nat \<Rightarrow> WordRecord list \<Rightarrow> pstate \<Rightarrow> pstate" where
  "annotate_page env file_path doc_name image_dir page_num page_words s =
     (case (if endswith (lower file_path) (py ''.jpg'') \<or> endswith (lower file_path) (py ''.jpeg'')
               \<or> endswith (lower file_path) (py ''.png'')
            then (Some file_path, s)
            else convert_page_to_image env file_path page_num image_dir doc_name s) of
        (None, s1) \<Rightarrow> s1
      | (Some image_path, s1) \<Rightarrow>
          (if image_path = [] then s1
           else snd (draw_bounding_boxes env image_path page_words image_dir doc_name page_num s1)))"

text \<open>\<^verbatim>\<open>for page_idx in range(len(result.pages))\<close>, from \<open>page_idx\<close> on; the exception
  that ended the loop, if any, comes with the state reached.\<close>

fun pages_loop ::
  "'d pipeline_env \<Rightarrow> pystr \<Rightarrow> pystr \<Rightarrow> pystr \<Rightarrow> nat \<Rightarrow> ocr_page list \<Rightarrow> pstate
     \<Rightarrow> exn option \<times> pstate" where
  "pages_loop env file_path doc_name image_dir page_idx [] s = (None, s)"
| "pages_loop env file_path doc_name image_dir page_idx (pg # rest) s =
     (case blocks_loop file_path page_idx (blocks pg) [] of
        Inl e \<Rightarrow> (Some e, s)
      | Inr page_words \<Rightarrow>
          pages_loop env file_path doc_name image_dir (Suc page_idx) rest
            (annotate_page env file_path doc_name image_dir (page_idx + 1) page_words
               (s\<lparr>results := results s @ page_words\<rparr>)))"

text \<open>Loading the document and running the model, inside the \<^verbatim>\<open>try\<close>.\<close>

definition load_and_ocr :: "'d pipeline_env \<Rightarrow> pystr \<Rightarrow> exn + ocr_result" where
  "load_and_ocr env file_path =
     (case (if endswith (lower file_path) (py ''.pdf'') then from_pdf env file_path
            else from_images env file_path) of
        Inl e \<Rightarrow> Inl e
      | Inr doc \<Rightarrow> model env doc)"

text \<open>The body of the loop over \<^verbatim>\<open>all_files\<close>: any exception of the \<^verbatim>\<open>try\<close> block is
  logged and the loop goes on.\<close>

definition process_file :: "'d pipeline_env \<Rightarrow> pystr \<Rightarrow> pstate \<Rightarrow> pstate" where
  "process_file env file_path s =
     (let doc_name = replace (py ''.'') (py ''_'') (basename file_path);
          image_dir = join (py ''logs'') doc_name;
          s1 = logging (Info_Processing file_path) s
      in case load_and_ocr env file_path of
           Inl e \<Rightarrow> logging (Error_Processing file_path e) s1
         | Inr result \<Rightarrow>
             (case pages_loop env file_path doc_name image_dir 0 (pages result)
                     (logging (Info_OCRCompleted file_path (length (pages result))) s1) of
                (None, s2) \<Rightarrow> s2
              | (Some e, s2) \<Rightarrow> logging (Error_Processing file_path e) s2))"

fun files_loop :: "'d pipeline_env \<Rightarrow> pystr list \<Rightarrow> pstate \<Rightarrow> pstate" where
  "files_loop env [] s = s"
| "files_loop env (file_path # rest) s = files_loop env rest (process_file env file_path s)"

definition folder_path :: pystr where
  "folder_path = py ''/home/litzchill/Boon_sai/doc_search/DATA/data''"

definition output_json :: pystr where
  "output_json = py ''word_index.json''"

definition supported_extensions :: "pystr list" where
  "supported_extensions = [py ''*.pdf'', py ''*.jpg'', py ''*.jpeg'', py ''*.png'']"

definition all_files :: "'d pipeline_env \<Rightarrow> pystr list \<Rightarrow> pystr list" where
  "all_files env converted_pdfs =
     concat (map (\<lambda>ext. glob env (join folder_path ext)) supported_extensions) @ converted_pdfs"

definition initial :: pstate where
  "initial = \<lparr>results = [], logged = [], annotated = [], index_files = []\<rparr>"

text \<open>The whole run. An exception of \<^verbatim>\<open>preprocess_docx\<close> leaves through the
  \<^verbatim>\<open>finally\<close> clause, which only removes the temporary directory; the index is written
  after the loop, and a failure to open it is not caught. Setting up the log file,
  building the OCR model and creating the log directories are taken to succeed, and the
  progress bars are left out.\<close>

definition preprocess_documents :: "'d pipeline_env \<Rightarrow> exn + pstate" where
  "preprocess_documents env =
     (if \<not> folder_isdir env folder_path
      then Inl (ValueError (py ''Invalid folder path: '' @ folder_path))
      else
        (case preprocess_docx env folder_path (mkdtemp env) initial of
           Inl e \<Rightarrow> Inl e
         | Inr (converted_pdfs, s) \<Rightarrow>
             (let s1 = files_loop env (all_files env converted_pdfs) s in
              case index_write env output_json of
                Some e \<Rightarrow> Inl e
              | None \<Rightarrow>
                  Inr (logging (Info_SavedIndex output_json)
                         (s1\<lparr>index_files := index_files s1 @ [(output_json, results s1)]\<rparr>)))))"

text \<open>The summary printed by \<^verbatim>\<open>main\<close>.\<close>

datatype summary =
    ProcessedWords nat
  | IndexSavedTo string
  | LogsSavedTo string
  | LogFileAt string

definition main :: "'d pipeline_env \<Rightarrow> exn + (pstate \<times> summary list)" where
  "main env =
     (case preprocess_documents env of
        Inl e \<Rightarrow> Inl e
      | Inr s \<Rightarrow>
          Inr (s, [ProcessedWords (length (results s)), IndexSavedTo ''word_index.json'',
                   LogsSavedTo ''logs'', LogFileAt ''logs/preprocess.log'']))"

section \<open>What the loops compute\<close>

text \<open>Closed forms of the loops above, against which they are proved below: the record
  of one word, the words of a page in the order of the three nested loops, the records
  of the pages of one file (up to the first page with a word of fewer than two points,
  where indexing raises), the records of one file, and the PDFs that
  \<^verbatim>\<open>preprocess_docx\<close> returns.\<close>

definition record_of :: "pystr \<Rightarrow> nat \<Rightarrow> ocr_word \<Rightarrow> WordRecord" where
  "record_of file_path page_idx w =
     \<lparr>document = basename file_path,
      page = int page_idx + 1,
      word = word_value w,
      bounding_box = [fst (geometry w ! 0), snd (geometry w ! 0),
                      fst (geometry w ! 1), snd (geometry w ! 1)]\<rparr>"

definition two_points :: "ocr_word \<Rightarrow> bool" where
  "two_points w = (2 \<le> length (geometry w))"

definition ocr_words :: "ocr_page \<Rightarrow> ocr_word list" where
  "ocr_words pg = concat (map words (concat (map lines (blocks pg))))"

fun pages_records :: "pystr \<Rightarrow> nat \<Rightarrow> ocr_page list \<Rightarrow> WordRecord list" where
  "pages_records file_path page_idx [] = []"
| "pages_records file_path page_idx (pg # rest) =
     (if list_all two_points (ocr_words pg)
      then map (record_of file_path page_idx) (ocr_words pg)
             @ pages_records file_path (Suc page_idx) rest
      else [])"

definition file_records :: "'d pipeline_env \<Rightarrow> pystr \<Rightarrow> WordRecord list" where
  "file_records env file_path =
     (case load_and_ocr env file_path of
        Inl e \<Rightarrow> []
      | Inr result \<Rightarrow> pages_records file_path 0 (pages result))"

definition docx_pdf_path :: "pystr \<Rightarrow> pystr \<Rightarrow> pystr" where
  "docx_pdf_path output_folder docx_file =
     join output_folder (replace (py ''.docx'') (py ''.pdf'') (basename docx_file))"

definition converted :: "'d pipeline_env \<Rightarrow> pystr list" where
  "converted env =
     map (docx_pdf_path (mkdtemp env))
       (filter (\<lambda>f. soffice env f (mkdtemp env) = Completed)
          (glob env (join folder_path (py ''*.docx''))))"

text \<open>The rectangle drawn for a record on an image of the given size.\<close>

definition scaled :: "nat \<Rightarrow> nat \<Rightarrow> WordRecord \<Rightarrow> rectangle" where
  "scaled img_width img_height w =
     ((bounding_box w ! 0 * real img_width, bounding_box w ! 1 * real img_height),
      (bounding_box w ! 2 * real img_width, bounding_box w ! 3 * real img_height))"

section \<open>The invariants of the data model\<close>

text \<open>A bounding box is \<open>[x_min, y_min, x_max, y_max]\<close> with
  \<open>0 \<le> x_min \<le> x_max \<le> 1\<close> and \<open>0 \<le> y_min \<le> y_max \<le> 1\<close>.\<close>

definition valid_box :: "real list \<Rightarrow> bool" where
  "valid_box b =
     (length b = 4 \<and> 0 \<le> b ! 0 \<and> b ! 0 \<le> b ! 2 \<and> b ! 2 \<le> 1
                   \<and> 0 \<le> b ! 1 \<and> b ! 1 \<le> b ! 3 \<and> b ! 3 \<le> 1)"

text \<open>The same of the first two corner points that the OCR model reports for a word.\<close>

definition straight_box :: "ocr_word \<Rightarrow> bool" where
  "straight_box w =
     valid_box [fst (geometry w ! 0), snd (geometry w ! 0),
                fst (geometry w ! 1), snd (geometry w ! 1)]"

section \<open>Example worlds\<close>

definition invoice_p1 :: WordRecord where
  "invoice_p1 = \<lparr>document = py ''a.pdf'', page = 1, word = py ''Invoice'',
                  bounding_box = [1/10, 1/10, 1/2, 1/2]\<rparr>"

definition total_p1 :: WordRecord where
  "total_p1 = \<lparr>document = py ''a.pdf'', page = 1, word = py ''Total'',
                bounding_box = [1/10, 3/5, 1/2, 7/10]\<rparr>"

definition invoice_p2 :: WordRecord where
  "invoice_p2 = \<lparr>document = py ''a.pdf'', page = 2, word = py ''Invoice'',
                  bounding_box = [1/5, 1/5, 2/5, 3/10]\<rparr>"

definition example_index :: "WordRecord list" where
  "example_index = [invoice_p1, total_p1, invoice_p2]"

definition example_search_env :: search_env where
  "example_search_env =
     \<lparr>isdir = (\<lambda>d. d = py ''docs''),
      open_json = (\<lambda>p. if p = py ''word_index.json'' then Inr example_index
                        else if p = py ''broken.json'' then Inl JSONDecodeError
                        else if p = py ''binary.json'' then Inl UnicodeDecodeError
                        else Inl FileNotFoundError),
      open_write = (\<lambda>p. None)\<rparr>"

definition typed :: "pystr list \<Rightarrow> sstate" where
  "typed ls = \<lparr>stdin = ls, stdout = [], written = []\<rparr>"

definition invoice_word :: ocr_word where
  "invoice_word = \<lparr>word_value = py ''Invoice'', geometry = [(1/10, 1/10), (1/2, 1/2)]\<rparr>"

definition ocr_of :: "ocr_word \<Rightarrow> ocr_result" where
  "ocr_of w = \<lparr>pages = [\<lparr>blocks = [\<lparr>lines = [\<lparr>words = [w]\<rparr>]\<rparr>]\<rparr>]\<rparr>"

text \<open>An empty folder in a world where every external call succeeds.\<close>

definition base_env :: "unit pipeline_env" where
  "base_env =
     \<lparr>folder_isdir = (\<lambda>p. True),
      mkdtemp = py ''/tmp/tmpx'',
      glob = (\<lambda>p. []),
      soffice = (\<lambda>f d. Completed),
      from_pdf = (\<lambda>p. Inr ()),
      from_images = (\<lambda>p. Inr ()),
      model = (\<lambda>d. Inr (ocr_of invoice_word)),
      convert_from_path = (\<lambda>p n i. None),
      image_open = (\<lambda>p. Inr (1000, 2000)),
      draw_rectangle = (\<lambda>r. None),
      image_save = (\<lambda>p. None),
      index_write = (\<lambda>p. None)\<rparr>"

text \<open>A folder with one DOCX file.\<close>

definition docx_env :: "unit pipeline_env" where
  "docx_env =
     base_env\<lparr>glob := (\<lambda>p. if p = join folder_path (py ''*.docx'')
                           then [py ''/home/litzchill/Boon_sai/doc_search/DATA/data/report.docx'']
                           else [])\<rparr>"

text \<open>A folder with one PDF and one DOCX file whose conversion fails, the converter
  writing bytes that are no UTF-8 to its standard error; and the same without the PDF.\<close>

definition bad_stderr_env :: "unit pipeline_env" where
  "bad_stderr_env =
     base_env\<lparr>glob := (\<lambda>p. if p = join folder_path (py ''*.docx'')
                           then [py ''/home/litzchill/Boon_sai/doc_search/DATA/data/broken.docx'']
                           else if p = join folder_path (py ''*.pdf'')
                           then [py ''/home/litzchill/Boon_sai/doc_search/DATA/data/good.pdf'']
                           else []),
              soffice := (\<lambda>f d. CalledProcessError NotUtf8)\<rparr>"

definition only_docx_env :: "unit pipeline_env" where
  "only_docx_env =
     base_env\<lparr>glob := (\<lambda>p. if p = join folder_path (py ''*.docx'')
                           then [py ''/home/litzchill/Boon_sai/doc_search/DATA/data/broken.docx'']
                           else []),
              soffice := (\<lambda>f d. CalledProcessError NotUtf8)\<rparr>"

text \<open>The records and final states of the runs in the worlds above, and a page with
  a word whose geometry has four corner points.\<close>

definition docx_record :: WordRecord where
  "docx_record = \<lparr>document = py ''report.pdf'', page = 1, word = py ''Invoice'',
                   bounding_box = [1/10, 1/10, 1/2, 1/2]\<rparr>"

definition docx_final :: pstate where
  "docx_final =
     \<lparr>results = [docx_record],
      logged =
        [Info_Converted (py ''/home/litzchill/Boon_sai/doc_search/DATA/data/report.docx'')
           (py ''/tmp/tmpx/report.pdf''),
         Info_Processing (py ''/tmp/tmpx/report.pdf''),
         Info_OCRCompleted (py ''/tmp/tmpx/report.pdf'') 1,
         Info_ConvertedPage 1 (py ''/tmp/tmpx/report.pdf'')
           (py ''logs/report_pdf/report_pdf_page_1.jpg''),
         Info_DrewBox (py ''Invoice'') [1/10, 1/10, 1/2, 1/2]
           (py ''logs/report_pdf/report_pdf_page_1.jpg''),
         Info_SavedAnnotated (py ''logs/report_pdf/annotated_report_pdf_page_1.jpg''),
         Info_SavedIndex (py ''word_index.json'')],
      annotated =
        [(py ''logs/report_pdf/annotated_report_pdf_page_1.jpg'', [((100, 200), (500, 1000))])],
      index_files = [(py ''word_index.json'', [docx_record])]\<rparr>"

definition polygon_word :: ocr_word where
  "polygon_word =
     \<lparr>word_value = py ''Total'',
      geometry = [(1/10, 1/10), (1/2, 1/10), (1/2, 1/2), (1/10, 1/2)]\<rparr>"

definition polygon_page :: ocr_page where
  "polygon_page = \<lparr>blocks = [\<lparr>lines = [\<lparr>words = [invoice_word, polygon_word]\<rparr>]\<rparr>]\<rparr>"

section \<open>The query engine\<close>

lemma find_matches_filter: "find_matches data q = filter (\<lambda>e. word e = q) data"
  by (induction data) auto

lemma input_written: "input p s = Inr (l, s') \<Longrightarrow> written s' = written s"
  by (auto simp: input_def print_def split: list.splits)

text \<open>The directory loop writes no file.\<close>

lemma validate_dir_written:
  "validate_dir env d s = Inr (r, s1) \<Longrightarrow> written s1 = written s"
proof (induction env d s arbitrary: r s1 rule: validate_dir.induct)
  case (1 env documents_dir s)
  show ?case
  proof (cases "isdir env documents_dir")
    case True
    with "1.prems" show ?thesis by (simp add: validate_dir.simps)
  next
    case False
    with "1.prems" obtain l s' where
      inp: "input ''Please enter a valid documents directory path: ''
              (print (DirNotExistMsg documents_dir) s) = Inr (l, s')"
      by (auto simp: validate_dir.simps [of env documents_dir s] split: sum.splits)
    have w: "written s' = written s"
      using input_written [OF inp] by (simp add: print_def)
    show ?thesis
    proof (cases "strip l = []")
      case True
      with "1.prems" False inp w show ?thesis
        by (auto simp: validate_dir.simps [of env documents_dir s] print_def)
    next
      case nonempty: False
      with "1.prems" False inp have "validate_dir env (strip l) s' = Inr (r, s1)"
        by (simp add: validate_dir.simps [of env documents_dir s])
      from "1.IH" [OF False _ _ nonempty this] inp w show ?thesis by simp
    qed
  qed
qed

text \<open>
  C1 (amended). Once the documents directory is accepted, the index is loaded as
  \<open>data\<close>, the line \<open>l\<close> is entered as the query and the output file can be written,
  the engine returns and the file written holds exactly the records of \<open>data\<close> whose
  \<open>word\<close> equals \<open>l\<close> with its leading and trailing whitespace stripped, unchanged, in
  the order of the index, duplicates kept. Nothing else is normalised: a query
  \<open>invoice\<close> matches no record whose word is \<open>Invoice\<close>.
\<close>

theorem search_word_exact_match:
  assumes dir: "validate_dir env documents_dir s = Inr (Some d, s1)"
    and load: "open_json env json_path = Inr data"
    and line: "stdin s1 = l # rest"
    and wr: "open_write env out = None"
  shows "\<exists>s'. search_word env documents_dir json_path out s = Inr s'
           \<and> written s' = written s @ [(out, filter (\<lambda>e. word e = strip l) data)]
           \<and> (strip l = py ''invoice'' \<longrightarrow>
                (\<forall>r \<in> set (filter (\<lambda>e. word e = strip l) data). word r \<noteq> py ''Invoice''))"
proof -
  have w1: "written s1 = written s"
    using validate_dir_written [OF dir] .
  have "py ''invoice'' \<noteq> py ''Invoice''"
    by (simp add: py_def)
  then show ?thesis
    using dir load line wr w1
    by (simp add: search_word_def load_json_file_def input_def save_results_def
        json_dump_def print_def find_matches_filter)
qed

theorem search_word_exact_match_witness:
  "\<exists>s'. search_word example_search_env (py ''docs'') (py ''word_index.json'') (py ''out.json'')
           (typed [py ''Invoice'']) = Inr s'
        \<and> written s' = [(py ''out.json'', [invoice_p1, invoice_p2])]"
proof -
  have dir: "validate_dir example_search_env (py ''docs'') (typed [py ''Invoice''])
               = Inr (Some (py ''docs''), typed [py ''Invoice''])"
    by (simp add: validate_dir.simps example_search_env_def py_def)
  have load: "open_json example_search_env (py ''word_index.json'') = Inr example_index"
    by (simp add: example_search_env_def py_def)
  have line: "stdin (typed [py ''Invoice'']) = py ''Invoice'' # []"
    by (simp add: typed_def)
  have wr: "open_write example_search_env (py ''out.json'') = None"
    by (simp add: example_search_env_def)
  show ?thesis
    using search_word_exact_match [OF dir load line wr]
    by (simp add: typed_def example_index_def invoice_p1_def total_p1_def invoice_p2_def
        strip_def isspace_def py_def)
qed

text \<open>The query as entered is not what is compared: entering \<open>Invoice\<close> after a space
  returns the two records whose word is \<open>Invoice\<close>, which differs from the line entered.\<close>

theorem search_word_raw_query_counterexample:
  "search_word example_search_env (py ''docs'') (py ''word_index.json'') (py ''out.json'')
       (typed [py '' Invoice''])
     = Inr \<lparr>stdin = [],
            stdout = [Prompt ''Enter the word to search: '', FoundMsg 2 (py ''Invoice''),
                      ResultsSavedMsg (py ''out.json'')],
            written = [(py ''out.json'', [invoice_p1, invoice_p2])]\<rparr>
   \<and> word invoice_p1 \<noteq> py '' Invoice''"
  by (simp add: search_word_def validate_dir.simps load_json_file_def input_def
      save_results_def json_dump_def print_def strip_def isspace_def
      invoice_p1_def total_p1_def invoice_p2_def example_index_def
      example_search_env_def typed_def py_def)

text \<open>Once the documents directory is accepted, an index file that is missing
  (\<^verbatim>\<open>FileNotFoundError\<close>) or whose text does not parse (\<^verbatim>\<open>JSONDecodeError\<close>) makes
  \<^verbatim>\<open>search_word\<close> return normally: no file is written, and the one message printed is
  the report of the failure.\<close>

lemma search_word_load_failure:
  assumes dir: "validate_dir env documents_dir s = Inr (Some d, s1)"
    and load: "open_json env json_path = Inl FileNotFoundError
               \<or> open_json env json_path = Inl JSONDecodeError"
  shows "\<exists>s'. search_word env documents_dir json_path out s = Inr s'
           \<and> written s' = written s
           \<and> stdout s' = stdout s1 @
                 [if open_json env json_path = Inl FileNotFoundError
                  then FileNotFoundMsg json_path else NotValidJsonMsg json_path]"
proof -
  have w1: "written s1 = written s"
    using validate_dir_written [OF dir] .
  from load show ?thesis
  proof
    assume "open_json env json_path = Inl FileNotFoundError"
    with dir w1 show ?thesis
      by (simp add: search_word_def load_json_file_def print_def)
  next
    assume "open_json env json_path = Inl JSONDecodeError"
    with dir w1 show ?thesis
      by (simp add: search_word_def load_json_file_def print_def)
  qed
qed

text \<open>
  C7. The claim fails on the code: an index file whose bytes are no valid text, so that
  reading it raises \<^verbatim>\<open>UnicodeDecodeError\<close>, is content that does not parse, and neither
  handler of \<^verbatim>\<open>load_json_file\<close> catches that exception: it leaves
  \<^verbatim>\<open>search_word\<close> and \<^verbatim>\<open>main\<close>, where the claim has the query return after
  reporting.
\<close>

theorem search_word_undecodable_index:
  "open_json example_search_env (py ''binary.json'') = Inl UnicodeDecodeError
   \<and> search_word example_search_env (py ''docs'') (py ''binary.json'') (py ''out.json'')
       (typed [py ''Invoice'']) = Inl UnicodeDecodeError
   \<and> search_main example_search_env
       (typed [py ''docs'', py ''binary.json'', py ''out.json'', py ''Invoice''])
     = Inl UnicodeDecodeError"
  by (simp add: search_main_def input_or_def search_word_def validate_dir.simps
      load_json_file_def input_def print_def strip_def isspace_def
      example_search_env_def typed_def py_def)

text \<open>
  C8. Once the documents directory is accepted, the index is loaded, no record has the
  stripped query as its word and the output file can be written, \<^verbatim>\<open>search_word\<close>
  returns normally, the file written holds the empty array, and what is printed after
  the prompt is the no-matches message and the note that empty results were saved; no
  found-count message is printed.
\<close>

theorem search_word_no_matches:
  assumes dir: "validate_dir env documents_dir s = Inr (Some d, s1)"
    and load: "open_json env json_path = Inr data"
    and line: "stdin s1 = l # rest"
    and none: "\<forall>e \<in> set data. word e \<noteq> strip l"
    and wr: "open_write env out = None"
  shows "\<exists>s'. search_word env documents_dir json_path out s = Inr s'
           \<and> written s' = written s @ [(out, [])]
           \<and> stdout s' = stdout s1 @ [Prompt ''Enter the word to search: '',
                                       NoMatchesMsg (strip l), EmptyResultsSavedMsg out]"
proof -
  have w1: "written s1 = written s"
    using validate_dir_written [OF dir] .
  have m: "find_matches data (strip l) = []"
    using none by (simp add: find_matches_filter filter_empty_conv)
  show ?thesis
    using dir load line wr w1 m
    by (simp add: search_word_def load_json_file_def input_def save_results_def
        json_dump_def print_def)
qed

theorem search_word_no_matches_witness:
  "\<exists>s'. search_word example_search_env (py ''docs'') (py ''word_index.json'') (py ''out.json'')
           (typed [py ''invoice'']) = Inr s'
        \<and> written s' = [(py ''out.json'', [])]
        \<and> stdout s' = [Prompt ''Enter the word to search: '',
                        NoMatchesMsg (py ''invoice''), EmptyResultsSavedMsg (py ''out.json'')]"
proof -
  have dir: "validate_dir example_search_env (py ''docs'') (typed [py ''invoice''])
               = Inr (Some (py ''docs''), typed [py ''invoice''])"
    by (simp add: validate_dir.simps example_search_env_def py_def)
  have load: "open_json example_search_env (py ''word_index.json'') = Inr example_index"
    by (simp add: example_search_env_def py_def)
  have line: "stdin (typed [py ''invoice'']) = py ''invoice'' # []"
    by (simp add: typed_def)
  have none: "\<forall>e \<in> set example_index. word e \<noteq> strip (py ''invoice'')"
    by (simp add: example_index_def invoice_p1_def total_p1_def invoice_p2_def
        strip_def isspace_def py_def)
  have wr: "open_write example_search_env (py ''out.json'') = None"
    by (simp add: example_search_env_def)
  show ?thesis
    using search_word_no_matches [OF dir load line none wr]
    by (simp add: typed_def strip_def isspace_def py_def)
qed

section \<open>Paths\<close>

lemma basename_no_slash: "sep \<notin> set (basename p)"
proof -
  have "\<forall>c \<in> set (takeWhile (\<lambda>c. c \<noteq> sep) (rev p)). c \<noteq> sep"
    by (auto dest: set_takeWhileD)
  then show ?thesis by (auto simp: basename_def)
qed

lemma basename_id: "sep \<notin> set b \<Longrightarrow> basename b = b"
proof -
  assume "sep \<notin> set b"
  then have "\<forall>x \<in> set (rev b). x \<noteq> sep" by auto
  then have "takeWhile (\<lambda>c. c \<noteq> sep) (rev b) = rev b"
    by (simp only: takeWhile_eq_all_conv)
  then show ?thesis by (simp only: basename_def rev_rev_ident)
qed

lemma basename_append:
  assumes "sep \<notin> set b" and "a \<noteq> []" and "last a = sep"
  shows "basename (a @ b) = b"
proof -
  from assms(2,3) obtain a' where a: "a = a' @ [sep]"
    by (metis append_butlast_last_id)
  have ra: "takeWhile (\<lambda>c. c \<noteq> sep) (rev a) = []"
    unfolding a by simp
  from assms(1) have "\<And>x. x \<in> set (rev b) \<Longrightarrow> x \<noteq> sep" by auto
  then have "takeWhile (\<lambda>c. c \<noteq> sep) (rev b @ rev a)
               = rev b @ takeWhile (\<lambda>c. c \<noteq> sep) (rev a)"
    by (rule takeWhile_append2)
  then show ?thesis
    by (simp only: basename_def rev_append ra append_Nil2 rev_rev_ident)
qed

lemma basename_join: "sep \<notin> set b \<Longrightarrow> basename (join a b) = b"
proof -
  assume b: "sep \<notin> set b"
  then have hd: "\<not> (b \<noteq> [] \<and> hd b = sep)"
    by (cases b) auto
  show ?thesis
  proof (cases "a = []")
    case True
    with hd b show ?thesis by (auto simp: join_def basename_id)
  next
    case False
    show ?thesis
    proof (cases "last a = sep")
      case True
      with hd False b show ?thesis by (auto simp: join_def basename_append)
    next
      case notslash: False
      have "basename ((a @ [sep]) @ b) = b"
        by (rule basename_append [OF b]) simp_all
      with hd False notslash show ?thesis by (auto simp: join_def)
    qed
  qed
qed

lemma replace_no_slash:
  "sep \<notin> set new \<Longrightarrow> sep \<notin> set s \<Longrightarrow> sep \<notin> set (replace old new s)"
proof (induction old new s rule: replace.induct)
  case (1 old new s)
  show ?case
  proof (cases "old = []")
    case True
    have "replace old new s = new @ concat (map (\<lambda>c. c # new) s)"
      using True by (subst replace.simps) simp
    with "1.prems" show ?thesis by auto
  next
    case False
    show ?thesis
    proof (cases "s = []")
      case True
      have "replace old new s = []"
        using False True by (subst replace.simps) simp
      then show ?thesis by simp
    next
      case nonempty: False
      show ?thesis
      proof (cases "take (length old) s = old")
        case True
        have eq: "replace old new s = new @ replace old new (drop (length old) s)"
          using False nonempty True by (subst replace.simps) simp
        from "1.prems" have "sep \<notin> set (drop (length old) s)"
          by (auto dest: in_set_dropD)
        from "1.IH"(1) [OF False nonempty True "1.prems"(1) this] "1.prems"(1)
        show ?thesis by (simp add: eq)
      next
        case nomatch: False
        have eq: "replace old new s = hd s # replace old new (tl s)"
          using False nonempty nomatch by (subst replace.simps) simp
        from "1.prems" nonempty have tl: "sep \<notin> set (tl s)" and hd: "hd s \<noteq> sep"
          by (cases s; auto)+
        from "1.IH"(2) [OF False nonempty nomatch "1.prems"(1) tl] hd
        show ?thesis by (simp add: eq)
      qed
    qed
  qed
qed

lemma basename_docx_pdf_path:
  "basename (docx_pdf_path out f) = replace (py ''.docx'') (py ''.pdf'') (basename f)"
proof -
  have "sep \<notin> set (py ''.pdf'')"
    by (simp add: py_def sep_def)
  from replace_no_slash [OF this basename_no_slash] show ?thesis
    unfolding docx_pdf_path_def by (rule basename_join)
qed

section \<open>The loops of the pipeline\<close>

lemma word_record_eq:
  "word_record fp i w = (if two_points w then Inr (record_of fp i w) else Inl IndexError)"
  by (simp add: word_record_def py_index_def two_points_def record_of_def)

lemma words_loop_eq:
  "words_loop fp i ws acc =
     (if list_all two_points ws then Inr (acc @ map (record_of fp i) ws) else Inl IndexError)"
  by (induction ws arbitrary: acc) (simp_all add: word_record_eq)

lemma lines_loop_eq:
  "lines_loop fp i ls acc =
     (if list_all two_points (concat (map words ls))
      then Inr (acc @ map (record_of fp i) (concat (map words ls))) else Inl IndexError)"
  by (induction ls arbitrary: acc) (simp_all add: words_loop_eq)

lemma blocks_loop_eq:
  "blocks_loop fp i bs acc =
     (if list_all two_points (concat (map words (concat (map lines bs))))
      then Inr (acc @ map (record_of fp i) (concat (map words (concat (map lines bs)))))
      else Inl IndexError)"
  by (induction bs arbitrary: acc) (simp_all add: lines_loop_eq)

lemma page_words_eq:
  "blocks_loop fp i (blocks pg) [] =
     (if list_all two_points (ocr_words pg)
      then Inr (map (record_of fp i) (ocr_words pg)) else Inl IndexError)"
  by (simp add: blocks_loop_eq ocr_words_def)

lemma logging_fields [simp]:
  "results (logging l s) = results s"
  "index_files (logging l s) = index_files s"
  "annotated (logging l s) = annotated s"
  "logged (logging l s) = logged s @ [l]"
  by (simp_all add: logging_def)

lemma draw_loop_fields:
  "draw_loop env sz ip ws drawn s = (e, drawn', s')
     \<Longrightarrow> results s' = results s \<and> index_files s' = index_files s \<and> annotated s' = annotated s"
proof (induction env sz ip ws drawn s rule: draw_loop.induct)
  case (1 env img_width img_height image_path drawn s)
  then show ?case by simp
next
  case (2 env img_width img_height image_path w ws drawn s)
  show ?case
  proof (cases "scale_box (bounding_box w) img_width img_height")
    case (Inl err)
    with "2.prems" show ?thesis by simp
  next
    case (Inr r)
    show ?thesis
    proof (cases "draw_rectangle env r")
      case (Some err)
      with Inr "2.prems" show ?thesis by simp
    next
      case None
      with Inr "2.prems" have
        "draw_loop env (img_width, img_height) image_path ws (drawn @ [r])
           (logging (Info_DrewBox (word w) (bounding_box w) image_path) s) = (e, drawn', s')"
        by simp
      from "2.IH" [OF refl Inr None this] show ?thesis by simp
    qed
  qed
qed

lemma draw_bounding_boxes_fields:
  "results (snd (draw_bounding_boxes env ip ws od dn pn s)) = results s
   \<and> index_files (snd (draw_bounding_boxes env ip ws od dn pn s)) = index_files s"
proof (cases "image_open env ip")
  case (Inl e)
  then show ?thesis by (simp add: draw_bounding_boxes_def)
next
  case (Inr sz)
  obtain e drawn s1 where dl: "draw_loop env sz ip ws [] s = (e, drawn, s1)"
    by (cases "draw_loop env sz ip ws [] s") auto
  from draw_loop_fields [OF dl] Inr dl show ?thesis
    by (auto simp: draw_bounding_boxes_def Let_def split: option.splits)
qed

lemma convert_page_to_image_fields:
  "results (snd (convert_page_to_image env pp pn od dn s)) = results s
   \<and> index_files (snd (convert_page_to_image env pp pn od dn s)) = index_files s"
  by (simp add: convert_page_to_image_def Let_def split: option.splits)

lemma annotate_page_fields:
  "results (annotate_page env fp dn idir pn pw s) = results s
   \<and> index_files (annotate_page env fp dn idir pn pw s) = index_files s"
proof -
  obtain ip s1 where c: "convert_page_to_image env fp pn idir dn s = (ip, s1)"
    by (cases "convert_page_to_image env fp pn idir dn s") auto
  have s1: "results s1 = results s \<and> index_files s1 = index_files s"
    using convert_page_to_image_fields [of env fp pn idir dn s] c by simp
  show ?thesis
    using c s1 draw_bounding_boxes_fields [of env _ pw idir dn pn]
    by (auto simp: annotate_page_def split: option.splits)
qed

lemma pages_loop_fields:
  "results (snd (pages_loop env fp dn idir i pgs s)) = results s @ pages_records fp i pgs
   \<and> index_files (snd (pages_loop env fp dn idir i pgs s)) = index_files s"
proof (induction pgs arbitrary: i s)
  case Nil
  then show ?case by simp
next
  case (Cons pg rest)
  show ?case
  proof (cases "list_all two_points (ocr_words pg)")
    case True
    then show ?thesis
      using Cons.IH by (simp add: page_words_eq annotate_page_fields)
  next
    case False
    then show ?thesis by (simp add: page_words_eq)
  qed
qed

lemma process_file_fields:
  "results (process_file env fp s) = results s @ file_records env fp
   \<and> index_files (process_file env fp s) = index_files s"
proof (cases "load_and_ocr env fp")
  case (Inl e)
  then show ?thesis by (simp add: process_file_def file_records_def)
next
  case (Inr result)
  let ?dn = "replace (py ''.'') (py ''_'') (basename fp)"
  let ?s1 = "logging (Info_OCRCompleted fp (length (pages result))) (logging (Info_Processing fp) s)"
  obtain e s2 where pl: "pages_loop env fp ?dn (join (py ''logs'') ?dn) 0 (pages result) ?s1 = (e, s2)"
    by (cases "pages_loop env fp ?dn (join (py ''logs'') ?dn) 0 (pages result) ?s1") auto
  have "results s2 = results s @ pages_records fp 0 (pages result) \<and> index_files s2 = index_files s"
    using pages_loop_fields [of env fp ?dn "join (py ''logs'') ?dn" 0 "pages result" ?s1] pl by simp
  with Inr pl show ?thesis
    by (simp add: process_file_def file_records_def Let_def split: option.splits)
qed

lemma files_loop_fields:
  "results (files_loop env fs s) = results s @ concat (map (file_records env) fs)
   \<and> index_files (files_loop env fs s) = index_files s"
  by (induction fs arbitrary: s) (simp_all add: process_file_fields)

lemma docx_loop_fields:
  "docx_loop env out fs acc s = Inr (pdfs, s')
     \<Longrightarrow> results s' = results s \<and> index_files s' = index_files s
         \<and> pdfs = acc @ map (docx_pdf_path out) (filter (\<lambda>f. soffice env f out = Completed) fs)"
proof (induction fs arbitrary: acc s)
  case Nil
  then show ?case by simp
next
  case (Cons f rest)
  show ?case
  proof (cases "soffice env f out")
    case Completed
    with Cons.prems Cons.IH [of "acc @ [docx_pdf_path out f]" "logging (Info_Converted f (docx_pdf_path out f)) s"]
    show ?thesis by (simp add: docx_pdf_path_def Let_def)
  next
    case (CalledProcessError err)
    with Cons.prems obtain msg where "decode err = Inr msg"
      by (auto simp: Let_def split: sum.splits)
    with CalledProcessError Cons.prems Cons.IH [of acc "logging (Error_Converting f msg) s"]
    show ?thesis by (simp add: Let_def)
  next
    case (RunException e)
    with Cons.prems Cons.IH [of acc "logging (Error_ConvertingExn f e) s"]
    show ?thesis by (simp add: Let_def)
  qed
qed

lemma preprocess_documents_fields:
  assumes "preprocess_documents env = Inr s"
  shows "results s = concat (map (file_records env) (all_files env (converted env)))
         \<and> index_files s = [(output_json, results s)]"
proof -
  from assms obtain pdfs s0 where
    d: "preprocess_docx env folder_path (mkdtemp env) initial = Inr (pdfs, s0)"
    by (auto simp: preprocess_documents_def split: if_splits sum.splits)
  from docx_loop_fields [OF d [unfolded preprocess_docx_def]]
  have s0: "results s0 = []" "index_files s0 = []" and pdfs: "pdfs = converted env"
    by (simp_all add: initial_def converted_def)
  from assms d have
    "s = logging (Info_SavedIndex output_json)
           ((files_loop env (all_files env pdfs) s0)
              \<lparr>index_files := index_files (files_loop env (all_files env pdfs) s0)
                 @ [(output_json, results (files_loop env (all_files env pdfs) s0))]\<rparr>)"
    by (auto simp: preprocess_documents_def Let_def split: if_splits option.splits)
  then show ?thesis
    using files_loop_fields [of env "all_files env pdfs" s0] s0 pdfs by simp
qed



section \<open>Runs of the example worlds\<close>

lemmas run_defs =
  preprocess_documents_def preprocess_docx_def all_files_def supported_extensions_def
  folder_path_def output_json_def initial_def process_file_def load_and_ocr_def
  annotate_page_def convert_page_to_image_def draw_bounding_boxes_def scale_box_def
  word_record_def py_index_def logging_def join_def basename_def lower_def lower_char_def
  endswith_def decode_def replace.simps str_nat.simps Let_def ocr_of_def py_def sep_def

lemma docx_env_run: "preprocess_documents docx_env = Inr docx_final"
  by (simp add: run_defs docx_env_def base_env_def invoice_word_def docx_final_def
      docx_record_def)

section \<open>Where the records of a run come from\<close>

lemma pages_records_provenance:
  "r \<in> set (pages_records fp i pgs)
     \<Longrightarrow> \<exists>pg \<in> set pgs. \<exists>w \<in> set (ocr_words pg). \<exists>k. two_points w \<and> r = record_of fp k w"
proof (induction pgs arbitrary: i)
  case Nil
  then show ?case by simp
next
  case (Cons pg rest)
  show ?case
  proof (cases "list_all two_points (ocr_words pg)")
    case True
    with Cons.prems consider
      (here) "r \<in> set (map (record_of fp i) (ocr_words pg))"
      | (later) "r \<in> set (pages_records fp (Suc i) rest)"
      by auto
    then show ?thesis
    proof cases
      case here
      then obtain w where "w \<in> set (ocr_words pg)" and "r = record_of fp i w" by auto
      moreover from True this(1) have "two_points w" by (simp add: list_all_iff)
      ultimately show ?thesis by auto
    next
      case later
      from Cons.IH [OF later] show ?thesis by auto
    qed
  next
    case False
    with Cons.prems show ?thesis by simp
  qed
qed

lemma file_records_provenance:
  assumes "r \<in> set (file_records env fp)"
  shows "\<exists>res. load_and_ocr env fp = Inr res
           \<and> (\<exists>pg \<in> set (pages res). \<exists>w \<in> set (ocr_words pg). \<exists>k.
                 two_points w \<and> r = record_of fp k w)"
proof (cases "load_and_ocr env fp")
  case (Inl e)
  with assms show ?thesis by (simp add: file_records_def)
next
  case (Inr res)
  with assms have "r \<in> set (pages_records fp 0 (pages res))"
    by (simp add: file_records_def)
  from pages_records_provenance [OF this] Inr show ?thesis by simp
qed

lemma results_provenance:
  assumes "preprocess_documents env = Inr s" and "r \<in> set (results s)"
  shows "\<exists>fp \<in> set (all_files env (converted env)). r \<in> set (file_records env fp)"
  using assms preprocess_documents_fields [OF assms(1)] by auto

text \<open>
  C3. In every run that returns, every record of the index has a page number of at
  least 1 and a bounding box with \<open>0 \<le> x_min \<le> x_max \<le> 1\<close> and
  \<open>0 \<le> y_min \<le> y_max \<le> 1\<close>, provided the OCR model keeps its contract: for every word
  of every processed file, the first two corner points it reports are the top-left and
  the bottom-right corner of a box within the page. The bounding box recorded is these
  two points of a word of a processed file, copied.
\<close>

theorem record_invariants:
  assumes run: "preprocess_documents env = Inr s" and r: "r \<in> set (results s)"
    and ocr: "\<forall>fp \<in> set (all_files env (converted env)). \<forall>res.
                load_and_ocr env fp = Inr res \<longrightarrow>
                (\<forall>pg \<in> set (pages res). \<forall>w \<in> set (ocr_words pg).
                   two_points w \<longrightarrow> straight_box w)"
  shows "1 \<le> page r \<and> valid_box (bounding_box r)
         \<and> (\<exists>fp \<in> set (all_files env (converted env)). \<exists>res pg w.
               load_and_ocr env fp = Inr res \<and> pg \<in> set (pages res)
               \<and> w \<in> set (ocr_words pg)
               \<and> bounding_box r = [fst (geometry w ! 0), snd (geometry w ! 0),
                                    fst (geometry w ! 1), snd (geometry w ! 1)])"
proof -
  from results_provenance [OF run r] obtain fp where
    fp: "fp \<in> set (all_files env (converted env))" and "r \<in> set (file_records env fp)"
    by auto
  from file_records_provenance [OF this(2)] obtain res pg w k where
    res: "load_and_ocr env fp = Inr res" and pg: "pg \<in> set (pages res)"
    and w: "w \<in> set (ocr_words pg)" and two: "two_points w" and rec: "r = record_of fp k w"
    by auto
  have page: "1 \<le> page r"
    by (simp add: rec record_of_def)
  have box: "bounding_box r = [fst (geometry w ! 0), snd (geometry w ! 0),
                               fst (geometry w ! 1), snd (geometry w ! 1)]"
    by (simp add: rec record_of_def)
  from ocr fp res pg w two have "straight_box w" by blast
  with box have "valid_box (bounding_box r)"
    by (simp add: straight_box_def)
  with page box fp res pg w show ?thesis by blast
qed

theorem record_invariants_witness:
  "preprocess_documents docx_env = Inr docx_final
   \<and> docx_record \<in> set (results docx_final)
   \<and> 1 \<le> page docx_record \<and> valid_box (bounding_box docx_record)"
proof -
  have r: "docx_record \<in> set (results docx_final)"
    by (simp add: docx_final_def)
  have ocr: "\<forall>fp \<in> set (all_files docx_env (converted docx_env)). \<forall>res.
               load_and_ocr docx_env fp = Inr res \<longrightarrow>
               (\<forall>pg \<in> set (pages res). \<forall>w \<in> set (ocr_words pg).
                  two_points w \<longrightarrow> straight_box w)"
    by (auto simp: load_and_ocr_def docx_env_def base_env_def ocr_of_def ocr_words_def
        invoice_word_def straight_box_def valid_box_def split: if_splits)
  from record_invariants [OF docx_env_run r ocr] docx_env_run r show ?thesis
    by blast
qed

text \<open>
  C4. For a page all of whose words have at least two corner points, the page loop
  yields one record per word, in order, and the bounding box of a word whose geometry
  is \<open>(x0, y0) # (x1, y1) # more\<close> is \<open>[x0, y0, x1, y1]\<close>, whatever the further
  points \<open>more\<close> are.
\<close>

theorem geometry_reduction:
  assumes "\<forall>w \<in> set (ocr_words pg). 2 \<le> length (geometry w)"
  shows "\<exists>page_words. blocks_loop file_path page_idx (blocks pg) [] = Inr page_words
           \<and> length page_words = length (ocr_words pg)
           \<and> (\<forall>k < length (ocr_words pg). \<forall>x0 y0 x1 y1 more.
                 geometry (ocr_words pg ! k) = (x0, y0) # (x1, y1) # more
                 \<longrightarrow> bounding_box (page_words ! k) = [x0, y0, x1, y1])"
proof -
  from assms have "list_all two_points (ocr_words pg)"
    by (simp add: list_all_iff two_points_def)
  then have "blocks_loop file_path page_idx (blocks pg) []
               = Inr (map (record_of file_path page_idx) (ocr_words pg))"
    by (simp add: page_words_eq)
  then show ?thesis
    by (auto simp: record_of_def)
qed

theorem geometry_reduction_witness:
  "\<exists>page_words. blocks_loop (py ''a.pdf'') 0 (blocks polygon_page) [] = Inr page_words
     \<and> length page_words = 2
     \<and> bounding_box (page_words ! 0) = [1/10, 1/10, 1/2, 1/2]
     \<and> bounding_box (page_words ! 1) = [1/10, 1/10, 1/2, 1/10]"
proof -
  have ws: "ocr_words polygon_page = [invoice_word, polygon_word]"
    by (simp add: ocr_words_def polygon_page_def)
  have two: "\<forall>w \<in> set (ocr_words polygon_page). 2 \<le> length (geometry w)"
    by (simp add: ws invoice_word_def polygon_word_def)
  from geometry_reduction [OF two, of "py ''a.pdf''" 0] obtain page_words where
    run: "blocks_loop (py ''a.pdf'') 0 (blocks polygon_page) [] = Inr page_words"
    and len: "length page_words = 2"
    and box: "\<forall>k < 2. \<forall>x0 y0 x1 y1 more.
                geometry ([invoice_word, polygon_word] ! k) = (x0, y0) # (x1, y1) # more
                \<longrightarrow> bounding_box (page_words ! k) = [x0, y0, x1, y1]"
    by (auto simp: ws)
  from box have "bounding_box (page_words ! 0) = [1/10, 1/10, 1/2, 1/2]"
    by (simp add: invoice_word_def)
  moreover from box have "bounding_box (page_words ! 1) = [1/10, 1/10, 1/2, 1/10]"
    by (simp add: polygon_word_def)
  ultimately show ?thesis using run len by simp
qed

lemma file_records_document: "r \<in> set (file_records env fp) \<Longrightarrow> document r = basename fp"
  using file_records_provenance [of r env fp] by (auto simp: record_of_def)

lemma docx_env_files:
  "all_files docx_env (converted docx_env) = [py ''/tmp/tmpx/report.pdf'']"
  by (simp add: all_files_def converted_def docx_pdf_path_def supported_extensions_def
      folder_path_def docx_env_def base_env_def join_def basename_def replace.simps
      py_def sep_def)

lemma docx_env_file_records:
  "file_records docx_env (py ''/tmp/tmpx/report.pdf'') = [docx_record]"
  by (simp add: file_records_def load_and_ocr_def record_of_def ocr_words_def two_points_def
      docx_env_def base_env_def ocr_of_def invoice_word_def docx_record_def
      endswith_def lower_def lower_char_def basename_def py_def sep_def)

text \<open>
  C5 (amended). In every run that returns, the index is, file after file, the records
  that processing each file appends, for the PDFs and images found in the folder followed
  by the PDFs converted from the DOCX files; and the \<open>document\<close> field of every record
  that processing a file appends is the basename of that file, extension included. For
  a DOCX file the file processed is the converted PDF, so its records carry the DOCX
  basename with \<open>.docx\<close> replaced by \<open>.pdf\<close>.
\<close>

theorem document_field:
  assumes run: "preprocess_documents env = Inr s"
  shows "results s = concat (map (file_records env) (all_files env (converted env)))
         \<and> all_files env (converted env)
             = concat (map (\<lambda>ext. glob env (join folder_path ext)) supported_extensions)
               @ map (docx_pdf_path (mkdtemp env))
                   (filter (\<lambda>f. soffice env f (mkdtemp env) = Completed)
                      (glob env (join folder_path (py ''*.docx''))))
         \<and> (\<forall>fp st. results (process_file env fp st) = results st @ file_records env fp)
         \<and> (\<forall>fp. \<forall>r \<in> set (file_records env fp). document r = basename fp)
         \<and> (\<forall>f. \<forall>r \<in> set (file_records env (docx_pdf_path (mkdtemp env) f)).
               document r = replace (py ''.docx'') (py ''.pdf'') (basename f))"
proof -
  have "results s = concat (map (file_records env) (all_files env (converted env)))"
    using preprocess_documents_fields [OF run] by simp
  moreover have "all_files env (converted env)
             = concat (map (\<lambda>ext. glob env (join folder_path ext)) supported_extensions)
               @ map (docx_pdf_path (mkdtemp env))
                   (filter (\<lambda>f. soffice env f (mkdtemp env) = Completed)
                      (glob env (join folder_path (py ''*.docx''))))"
    by (simp add: all_files_def converted_def)
  moreover have "\<forall>fp st. results (process_file env fp st) = results st @ file_records env fp"
    by (simp add: process_file_fields)
  moreover have "\<forall>fp. \<forall>r \<in> set (file_records env fp). document r = basename fp"
    by (simp add: file_records_document)
  moreover have "\<forall>f. \<forall>r \<in> set (file_records env (docx_pdf_path (mkdtemp env) f)).
               document r = replace (py ''.docx'') (py ''.pdf'') (basename f)"
    by (simp add: file_records_document basename_docx_pdf_path)
  ultimately show ?thesis by blast
qed

theorem document_field_witness:
  "preprocess_documents docx_env = Inr docx_final
   \<and> results docx_final = file_records docx_env (py ''/tmp/tmpx/report.pdf'')
   \<and> file_records docx_env (py ''/tmp/tmpx/report.pdf'') = [docx_record]
   \<and> py ''/tmp/tmpx/report.pdf''
       = docx_pdf_path (mkdtemp docx_env)
           (py ''/home/litzchill/Boon_sai/doc_search/DATA/data/report.docx'')
   \<and> document docx_record =
       replace (py ''.docx'') (py ''.pdf'')
         (basename (py ''/home/litzchill/Boon_sai/doc_search/DATA/data/report.docx''))"
proof -
  have path: "py ''/tmp/tmpx/report.pdf''
       = docx_pdf_path (mkdtemp docx_env)
           (py ''/home/litzchill/Boon_sai/doc_search/DATA/data/report.docx'')"
    by (simp add: docx_pdf_path_def docx_env_def base_env_def join_def basename_def
        replace.simps py_def sep_def)
  from document_field [OF docx_env_run] have
    res: "results docx_final
            = concat (map (file_records docx_env) (all_files docx_env (converted docx_env)))"
    and doc: "\<forall>r \<in> set (file_records docx_env
                  (docx_pdf_path (mkdtemp docx_env)
                     (py ''/home/litzchill/Boon_sai/doc_search/DATA/data/report.docx''))).
               document r = replace (py ''.docx'') (py ''.pdf'')
                 (basename (py ''/home/litzchill/Boon_sai/doc_search/DATA/data/report.docx''))"
    by blast+
  from res have "results docx_final = file_records docx_env (py ''/tmp/tmpx/report.pdf'')"
    by (simp add: docx_env_files)
  moreover from doc have "document docx_record =
       replace (py ''.docx'') (py ''.pdf'')
         (basename (py ''/home/litzchill/Boon_sai/doc_search/DATA/data/report.docx''))"
    by (simp add: path [symmetric] docx_env_file_records)
  ultimately show ?thesis
    using docx_env_run docx_env_file_records path by simp
qed

text \<open>The only source file is \<open>report.docx\<close>; the record names \<open>report.pdf\<close>.\<close>

theorem document_field_counterexample:
  "glob docx_env (join folder_path (py ''*.docx''))
     = [py ''/home/litzchill/Boon_sai/doc_search/DATA/data/report.docx'']
   \<and> preprocess_documents docx_env = Inr docx_final
   \<and> results docx_final = [docx_record]
   \<and> document docx_record = py ''report.pdf''
   \<and> document docx_record
       \<noteq> basename (py ''/home/litzchill/Boon_sai/doc_search/DATA/data/report.docx'')"
  using docx_env_run
  by (simp add: docx_final_def docx_record_def docx_env_def base_env_def basename_def
      py_def sep_def)

section \<open>Failures of single documents\<close>

text \<open>A conversion that fails with a readable error, or with any other exception, is
  logged and the loop goes on without the file.\<close>

lemma docx_loop_conversion_error:
  "soffice env f out = CalledProcessError (Utf8 t)
     \<Longrightarrow> docx_loop env out (f # rest) pdfs s
         = docx_loop env out rest pdfs (logging (Error_Converting f t) s)"
  by (simp add: decode_def)

lemma docx_loop_other_exception:
  "soffice env f out = RunException e
     \<Longrightarrow> docx_loop env out (f # rest) pdfs s
         = docx_loop env out rest pdfs (logging (Error_ConvertingExn f e) s)"
  by simp

text \<open>The loop returns when no converter failure comes with bytes that are no UTF-8.\<close>

lemma docx_loop_returns:
  "\<forall>f \<in> set fs. soffice env f out \<noteq> CalledProcessError NotUtf8
     \<Longrightarrow> \<exists>pdfs' s'. docx_loop env out fs pdfs s = Inr (pdfs', s')"
proof (induction fs arbitrary: pdfs s)
  case Nil
  then show ?case by simp
next
  case (Cons f rest)
  then have rest: "\<forall>f \<in> set rest. soffice env f out \<noteq> CalledProcessError NotUtf8"
    and f: "soffice env f out \<noteq> CalledProcessError NotUtf8"
    by simp_all
  show ?case
  proof (cases "soffice env f out")
    case Completed
    with Cons.IH [OF rest] show ?thesis by (simp add: Let_def)
  next
    case (CalledProcessError err)
    with f obtain t where "err = Utf8 t" by (cases err) auto
    with CalledProcessError Cons.IH [OF rest] show ?thesis
      by (simp add: Let_def decode_def)
  next
    case (RunException e)
    with Cons.IH [OF rest] show ?thesis by (simp add: Let_def)
  qed
qed

text \<open>A document whose loading or OCR raises adds no record; the error is logged.\<close>

lemma process_file_ocr_error:
  "load_and_ocr env fp = Inl e
     \<Longrightarrow> process_file env fp s
         = logging (Error_Processing fp e) (logging (Info_Processing fp) s)"
  by (simp add: process_file_def)

lemma file_records_ocr_error: "load_and_ocr env fp = Inl e \<Longrightarrow> file_records env fp = []"
  by (simp add: file_records_def)

text \<open>With an existing folder, readable converter errors and a writable index, the run
  returns; the index is written once and holds, file after file, the records of the
  files found and of the PDFs converted.\<close>

lemma preprocess_documents_returns:
  assumes "folder_isdir env folder_path"
    and "\<forall>f \<in> set (glob env (join folder_path (py ''*.docx''))).
           soffice env f (mkdtemp env) \<noteq> CalledProcessError NotUtf8"
    and "index_write env output_json = None"
  shows "\<exists>s. preprocess_documents env = Inr s
           \<and> results s = concat (map (file_records env) (all_files env (converted env)))
           \<and> index_files s = [(output_json, results s)]"
proof -
  from docx_loop_returns [OF assms(2)] obtain pdfs s0 where
    "preprocess_docx env folder_path (mkdtemp env) initial = Inr (pdfs, s0)"
    unfolding preprocess_docx_def by blast
  with assms(1,3) obtain s where run: "preprocess_documents env = Inr s"
    by (simp add: preprocess_documents_def Let_def)
  with preprocess_documents_fields [OF run] show ?thesis by simp
qed

text \<open>If moreover no file yields a record, the index written is the empty array and
  \<^verbatim>\<open>main\<close> prints its summary.\<close>

lemma main_empty_index:
  assumes "folder_isdir env folder_path"
    and "\<forall>f \<in> set (glob env (join folder_path (py ''*.docx''))).
           soffice env f (mkdtemp env) \<noteq> CalledProcessError NotUtf8"
    and "index_write env output_json = None"
    and "\<forall>fp \<in> set (all_files env (converted env)). file_records env fp = []"
  shows "\<exists>s. main env = Inr (s, [ProcessedWords 0, IndexSavedTo ''word_index.json'',
                                   LogsSavedTo ''logs'', LogFileAt ''logs/preprocess.log''])
           \<and> results s = [] \<and> index_files s = [(output_json, [])]"
proof -
  from preprocess_documents_returns [OF assms(1-3)] obtain s where
    run: "preprocess_documents env = Inr s"
    and res: "results s = concat (map (file_records env) (all_files env (converted env)))"
    and idx: "index_files s = [(output_json, results s)]"
    by blast
  from assms(4) res have "results s = []" by simp
  with run idx show ?thesis by (simp add: main_def)
qed

text \<open>
  C6. The claim fails on the code: a DOCX file whose conversion fails while the
  converter writes bytes that are no UTF-8 to its standard error ends the run with
  \<^verbatim>\<open>UnicodeDecodeError\<close>, raised inside the handler that was to log the failure; the PDF
  beside it is never processed and no index is written.
\<close>

theorem conversion_failure_not_contained:
  "glob bad_stderr_env (join folder_path (py ''*.pdf''))
     = [py ''/home/litzchill/Boon_sai/doc_search/DATA/data/good.pdf'']
   \<and> file_records bad_stderr_env (py ''/home/litzchill/Boon_sai/doc_search/DATA/data/good.pdf'')
     = [\<lparr>document = py ''good.pdf'', page = 1, word = py ''Invoice'',
         bounding_box = [1/10, 1/10, 1/2, 1/2]\<rparr>]
   \<and> preprocess_documents bad_stderr_env = Inl UnicodeDecodeError"
  by (simp add: run_defs file_records_def record_of_def ocr_words_def two_points_def
      bad_stderr_env_def base_env_def invoice_word_def)

text \<open>
  C10. The claim fails on the code: in a folder whose only document is a DOCX file
  whose conversion fails with bytes that are no UTF-8 on the converter's standard error,
  \<^verbatim>\<open>main\<close> ends with \<^verbatim>\<open>UnicodeDecodeError\<close>: no index is written and no summary
  is printed.
\<close>

theorem empty_run_not_written:
  "main only_docx_env = Inl UnicodeDecodeError"
  by (simp add: main_def run_defs only_docx_env_def base_env_def)

section \<open>Drawing\<close>

lemma scale_box_scaled:
  "4 \<le> length (bounding_box w)
     \<Longrightarrow> scale_box (bounding_box w) img_width img_height = Inr (scaled img_width img_height w)"
  by (auto simp: scale_box_def py_index_def scaled_def)

lemma draw_loop_scaled:
  "\<forall>w \<in> set ws. 4 \<le> length (bounding_box w)
       \<and> draw_rectangle env (scaled img_width img_height w) = None
     \<Longrightarrow> \<exists>s'. draw_loop env (img_width, img_height) ip ws drawn s
                 = (None, drawn @ map (scaled img_width img_height) ws, s')
              \<and> annotated s' = annotated s"
proof (induction ws arbitrary: drawn s)
  case Nil
  then show ?case by simp
next
  case (Cons w ws)
  then have w: "4 \<le> length (bounding_box w)"
    and dr: "draw_rectangle env (scaled img_width img_height w) = None"
    and ws: "\<forall>w \<in> set ws. 4 \<le> length (bounding_box w)
               \<and> draw_rectangle env (scaled img_width img_height w) = None"
    by simp_all
  from Cons.IH [OF ws, of "drawn @ [scaled img_width img_height w]"
      "logging (Info_DrewBox (word w) (bounding_box w) ip) s"]
  show ?case
    by (simp add: scale_box_scaled [OF w] dr logging_def)
qed

text \<open>
  C9. When the page image opens with size \<open>img_width \<times> img_height\<close>, every word has a
  box of four coordinates, the imaging library draws each rectangle it is given and the
  annotated image can be saved, the image saved carries one rectangle per word, with
  corners \<open>(x_min * img_width, y_min * img_height)\<close> and
  \<open>(x_max * img_width, y_max * img_height)\<close>. The box \<open>(0.1, 0.1, 0.5, 0.5)\<close> on an
  image of 1000 by 2000 pixels gives the corners \<open>(100, 200)\<close> and \<open>(500, 1000)\<close>.
\<close>

theorem annotation_scaling:
  assumes img: "image_open env image_path = Inr (img_width, img_height)"
    and boxes: "\<forall>w \<in> set ws. length (bounding_box w) = 4"
    and drawn: "\<forall>w \<in> set ws.
                  draw_rectangle env
                    ((bounding_box w ! 0 * real img_width, bounding_box w ! 1 * real img_height),
                     (bounding_box w ! 2 * real img_width, bounding_box w ! 3 * real img_height))
                  = None"
    and save: "image_save env
                 (join output_dir
                    (py ''annotated_'' @ doc_name @ py ''_page_'' @ str_nat page_num
                       @ py ''.jpg''))
               = None"
  shows "(\<exists>s'. draw_bounding_boxes env image_path ws output_dir doc_name page_num s
                 = (Some (join output_dir
                            (py ''annotated_'' @ doc_name @ py ''_page_'' @ str_nat page_num
                               @ py ''.jpg'')), s')
              \<and> annotated s' = annotated s @
                  [(join output_dir
                      (py ''annotated_'' @ doc_name @ py ''_page_'' @ str_nat page_num
                         @ py ''.jpg''),
                    map (\<lambda>w. ((bounding_box w ! 0 * real img_width,
                                bounding_box w ! 1 * real img_height),
                               (bounding_box w ! 2 * real img_width,
                                bounding_box w ! 3 * real img_height))) ws)])
         \<and> scale_box [1/10, 1/10, 1/2, 1/2] 1000 2000 = Inr ((100, 200), (500, 1000))"
proof -
  from boxes drawn have "\<forall>w \<in> set ws. 4 \<le> length (bounding_box w)
                           \<and> draw_rectangle env (scaled img_width img_height w) = None"
    by (simp add: scaled_def)
  from draw_loop_scaled [OF this, of image_path "[]" s]
  obtain s1 where
    loop: "draw_loop env (img_width, img_height) image_path ws [] s
             = (None, map (scaled img_width img_height) ws, s1)"
    and ann: "annotated s1 = annotated s"
    by auto
  have "scaled img_width img_height
          = (\<lambda>w. ((bounding_box w ! 0 * real img_width, bounding_box w ! 1 * real img_height),
                   (bounding_box w ! 2 * real img_width, bounding_box w ! 3 * real img_height)))"
    by (rule ext) (simp add: scaled_def)
  with img loop ann save have first:
    "\<exists>s'. draw_bounding_boxes env image_path ws output_dir doc_name page_num s
                 = (Some (join output_dir
                            (py ''annotated_'' @ doc_name @ py ''_page_'' @ str_nat page_num
                               @ py ''.jpg'')), s')
              \<and> annotated s' = annotated s @
                  [(join output_dir
                      (py ''annotated_'' @ doc_name @ py ''_page_'' @ str_nat page_num
                         @ py ''.jpg''),
                    map (\<lambda>w. ((bounding_box w ! 0 * real img_width,
                                bounding_box w ! 1 * real img_height),
                               (bounding_box w ! 2 * real img_width,
                                bounding_box w ! 3 * real img_height))) ws)]"
    by (simp add: draw_bounding_boxes_def Let_def)
  have "scale_box [1/10, 1/10, 1/2, 1/2] 1000 2000 = Inr ((100, 200), (500, 1000))"
    by (simp add: scale_box_def py_index_def)
  with first show ?thesis by blast
qed

theorem annotation_scaling_witness:
  "\<exists>s'. draw_bounding_boxes base_env (py ''page.jpg'') [invoice_p1] (py ''logs/a_pdf'')
           (py ''a_pdf'') 1 initial
         = (Some (py ''logs/a_pdf/annotated_a_pdf_page_1.jpg''), s')
      \<and> annotated s' =
          [(py ''logs/a_pdf/annotated_a_pdf_page_1.jpg'', [((100, 200), (500, 1000))])]"
proof -
  have img: "image_open base_env (py ''page.jpg'') = Inr (1000, 2000)"
    by (simp add: base_env_def)
  have boxes: "\<forall>w \<in> set [invoice_p1]. length (bounding_box w) = 4"
    by (simp add: invoice_p1_def)
  have drawn: "\<forall>w \<in> set [invoice_p1].
                 draw_rectangle base_env
                   ((bounding_box w ! 0 * real 1000, bounding_box w ! 1 * real 2000),
                    (bounding_box w ! 2 * real 1000, bounding_box w ! 3 * real 2000))
                 = None"
    by (simp add: base_env_def)
  have save: "image_save base_env
                (join (py ''logs/a_pdf'')
                   (py ''annotated_'' @ py ''a_pdf'' @ py ''_page_'' @ str_nat 1
                      @ py ''.jpg'')) = None"
    by (simp add: base_env_def)
  from annotation_scaling [OF img boxes drawn save, of initial] show ?thesis
    by (simp add: join_def str_nat.simps invoice_p1_def initial_def py_def sep_def)
qed

end
